theory Spec2Isabelle
  imports Complex_Main
begin

section \<open>The Difference function of Mycodo (mycodo/functions/difference.py)\<close>

text \<open>
  The module holds a validator for the period option, \<open>constraints_pass_positive_value\<close>,
  and the controller class \<open>CustomModule\<close> whose method \<open>loop\<close> is called again and
  again by the controller thread.

  The period, the deadline \<open>timer_loop\<close> and their sum are Python floats: IEEE 754
  doubles, with the two infinities and NaN, added with rounding to the nearest double (ties
  to even). The clock \<open>time.time()\<close> is read anew at every test of lines 192 and 193:
  a call of \<open>loop\<close> takes the sequence of its readings.
\<close>

subsection \<open>Python values and the operations the method applies to them\<close>

text \<open>
  What \<open>get_last_measurement\<close> hands back is a Python object: \<open>None\<close>, a number, or a
  sequence (the source reads the components \<open>[0]\<close>, the timestamp, and \<open>[1]\<close>, the
  measurement). Tuples and lists behave alike under every operation used here. The
  numbers inside a measurement are kept as real numbers: \<open>loop\<close> never gets as far as
  arithmetic on them (lemma \<open>loop_body_never_emits\<close> below).
\<close>

datatype pyval = PNone | PNum real | PTuple "pyval list"

datatype error = TypeError | IndexError | KeyError | IOError

text \<open>Truth value of an object, as \<open>if x:\<close> and \<open>x and y\<close> test it.\<close>

fun truthy :: "pyval \<Rightarrow> bool" where
  "truthy PNone = False"
| "truthy (PNum x) = (x \<noteq> 0)"
| "truthy (PTuple xs) = (xs \<noteq> [])"

text \<open>\<open>x[i]\<close> for a non-negative literal index: only a sequence can be subscripted.\<close>

fun py_getitem :: "pyval \<Rightarrow> nat \<Rightarrow> error + pyval" where
  "py_getitem (PTuple xs) i = (if i < length xs then Inr (xs ! i) else Inl IndexError)"
| "py_getitem PNone i = Inl TypeError"
| "py_getitem (PNum x) i = Inl TypeError"

text \<open>\<open>x - y\<close>: defined on numbers; no sequence type has a subtraction.\<close>

fun py_sub :: "pyval \<Rightarrow> pyval \<Rightarrow> error + pyval" where
  "py_sub (PNum x) (PNum y) = Inr (PNum (x - y))"
| "py_sub x y = Inl TypeError"

text \<open>\<open>abs(x)\<close>: defined on numbers.\<close>

fun py_abs :: "pyval \<Rightarrow> error + pyval" where
  "py_abs (PNum x) = Inr (PNum \<bar>x\<bar>)"
| "py_abs x = Inl TypeError"

subsection \<open>Python floats\<close>

text \<open>
  A float is a finite number, an infinity or NaN. The finite numbers that occur are the
  doubles: the results of \<open>round_double\<close>. The two zeros are not told apart.
\<close>

datatype pyfloat = Fin real | PInf | NInf | NaN

text \<open>\<open>x < y\<close> and \<open>x <= y\<close> on floats: every comparison with NaN is false.\<close>

fun float_lt :: "pyfloat \<Rightarrow> pyfloat \<Rightarrow> bool" where
  "float_lt NaN y = False"
| "float_lt x NaN = False"
| "float_lt (Fin a) (Fin b) = (a < b)"
| "float_lt (Fin a) PInf = True"
| "float_lt (Fin a) NInf = False"
| "float_lt PInf y = False"
| "float_lt NInf NInf = False"
| "float_lt NInf y = True"

fun float_le :: "pyfloat \<Rightarrow> pyfloat \<Rightarrow> bool" where
  "float_le NaN y = False"
| "float_le x NaN = False"
| "float_le (Fin a) (Fin b) = (a \<le> b)"
| "float_le (Fin a) PInf = True"
| "float_le (Fin a) NInf = False"
| "float_le PInf PInf = True"
| "float_le PInf y = False"
| "float_le NInf y = True"

text \<open>
  The binary exponent of a positive number: \<open>2 ^ binade x \<le> x < 2 ^ (binade x + 1)\<close>.
\<close>

function binade :: "real \<Rightarrow> int" where
  "binade x =
     (if x \<le> 0 then 0
      else if 2 \<le> x then binade (x / 2) + 1
      else if x < 1 then binade (x * 2) - 1
      else 0)"
  by pat_completeness auto
termination
proof (relation "measure (\<lambda>x. nat \<bar>\<lfloor>log 2 x\<rfloor>\<bar>)")
  show "wf (measure (\<lambda>x. nat \<bar>\<lfloor>log 2 x\<rfloor>\<bar>))" by simp
next
  fix x :: real
  assume "\<not> x \<le> 0" "2 \<le> x"
  then have "log 2 (x / 2) = log 2 x - 1" by (simp add: log_divide)
  then have e: "\<lfloor>log 2 (x / 2)\<rfloor> = \<lfloor>log 2 x\<rfloor> - 1" by simp
  from \<open>2 \<le> x\<close> have "1 \<le> log 2 x" by (simp add: le_log_iff)
  then have f: "1 \<le> \<lfloor>log 2 x\<rfloor>" by (simp add: le_floor_iff)
  from e f have "nat \<bar>\<lfloor>log 2 (x / 2)\<rfloor>\<bar> < nat \<bar>\<lfloor>log 2 x\<rfloor>\<bar>" by linarith
  then show "(x / 2, x) \<in> measure (\<lambda>x. nat \<bar>\<lfloor>log 2 x\<rfloor>\<bar>)" by simp
next
  fix x :: real
  assume "\<not> x \<le> 0" "\<not> 2 \<le> x" "x < 1"
  then have "log 2 (x * 2) = log 2 x + 1" by (simp add: log_mult)
  then have e: "\<lfloor>log 2 (x * 2)\<rfloor> = \<lfloor>log 2 x\<rfloor> + 1" by simp
  from \<open>x < 1\<close> \<open>\<not> x \<le> 0\<close> have "log 2 x < 0" by simp
  then have f: "\<lfloor>log 2 x\<rfloor> < 0" by (simp add: floor_less_iff)
  from e f have "nat \<bar>\<lfloor>log 2 (x * 2)\<rfloor>\<bar> < nat \<bar>\<lfloor>log 2 x\<rfloor>\<bar>" by linarith
  then show "(x * 2, x) \<in> measure (\<lambda>x. nat \<bar>\<lfloor>log 2 x\<rfloor>\<bar>)" by simp
qed

text \<open>Rounding to the nearest integer, a tie to the even one.\<close>

definition round_half_even :: "real \<Rightarrow> int" where
  "round_half_even y =
     (let f = \<lfloor>y\<rfloor>; d = y - of_int f in
      if d < 1 / 2 then f else if 1 / 2 < d then f + 1 else if even f then f else f + 1)"

text \<open>
  Rounding of a real number to the nearest double: 53 significant bits, the spacing never
  below \<open>2 ^ - 1074\<close> (subnormal numbers), a tie to the even neighbour, and an infinity
  when the rounded magnitude reaches \<open>2 ^ 1024\<close>.
\<close>

definition round_double :: "real \<Rightarrow> pyfloat" where
  "round_double x =
     (if x = 0 then Fin 0
      else
        (let u = power_int 2 (max (binade \<bar>x\<bar> - 52) (- 1074));
             r = of_int (round_half_even (x / u)) * u
         in if 2 ^ 1024 \<le> \<bar>r\<bar> then (if 0 < x then PInf else NInf) else Fin r))"

text \<open>\<open>x + y\<close> on floats.\<close>

fun float_add :: "pyfloat \<Rightarrow> pyfloat \<Rightarrow> pyfloat" where
  "float_add NaN y = NaN"
| "float_add x NaN = NaN"
| "float_add (Fin a) (Fin b) = round_double (a + b)"
| "float_add PInf NInf = NaN"
| "float_add NInf PInf = NaN"
| "float_add PInf y = PInf"
| "float_add x PInf = PInf"
| "float_add NInf y = NInf"
| "float_add x NInf = NInf"

text \<open>The deadline after \<open>m\<close> executions of line 194, \<open>self.timer_loop += self.period\<close>.\<close>

fun add_periods :: "pyfloat \<Rightarrow> nat \<Rightarrow> pyfloat \<Rightarrow> pyfloat" where
  "add_periods p 0 t = t"
| "add_periods p (Suc m) t = add_periods p m (float_add t p)"

subsection \<open>The validator of the period option (lines 36-49)\<close>

definition constraints_pass_positive_value ::
  "'m \<Rightarrow> pyfloat \<Rightarrow> bool \<times> string list \<times> 'm" where
  "constraints_pass_positive_value mod_controller v =
     (let errors = []; all_passed = True in
      if float_le v (Fin 0) then (False, errors @ [''Must be a positive value''], mod_controller)
      else (all_passed, errors, mod_controller))"

subsection \<open>The controller object and its collaborators\<close>

text \<open>
  The attributes of \<open>self\<close> that \<open>loop\<close> reads or writes. \<open>channels_measurement\<close> is
  set up by the base class; it is looked up at key \<open>0\<close>.
\<close>

record device_measurement =
  unit :: string
  measurement :: string

record custom_module =
  unique_id :: string
  timer_loop :: pyfloat
  period :: pyfloat
  select_measurement_a_device_id :: string
  select_measurement_a_measurement_id :: string
  measurement_max_age_a :: int
  select_measurement_b_device_id :: string
  select_measurement_b_measurement_id :: string
  measurement_max_age_b :: int
  difference_reverse_order :: bool
  difference_absolute :: bool
  channels_measurement :: "nat \<rightharpoonup> device_measurement"

text \<open>One call of \<open>write_influxdb_value\<close>, with its arguments.\<close>

record influx_call =
  call_unique_id :: string
  call_unit :: string
  call_value :: pyval
  call_measure :: string
  call_channel :: nat

text \<open>
  The two collaborators are not part of this module: \<open>get_last_measurement\<close> (inherited
  from the base class) and \<open>write_influxdb_value\<close>. They are parameters of the model;
  each may raise.
\<close>

record env =
  get_last_measurement :: "string \<Rightarrow> string \<Rightarrow> int \<Rightarrow> error + pyval"
  write_influxdb_value :: "influx_call \<Rightarrow> error option"

subsection \<open>The method \<open>loop\<close> (lines 191-245)\<close>

text \<open>
  Lines 193-194, \<open>while self.timer_loop < time.time(): self.timer_loop += self.period\<close>.
  \<open>clock i\<close> is what the \<open>i\<close>-th reading of \<open>time.time()\<close> in this call returns.
  The loop need not end, so not returning is \<open>None\<close>.
\<close>

partial_function (option) advance_timer ::
  "pyfloat \<Rightarrow> (nat \<Rightarrow> real) \<Rightarrow> nat \<Rightarrow> pyfloat \<Rightarrow> pyfloat option" where
  "advance_timer p clock i t =
     (if float_lt t (Fin (clock i)) then advance_timer p clock (Suc i) (float_add t p)
      else Some t)"

text \<open>
  Lines 192-194, the scheduling part of the method: whether this call fires, and the
  deadline it leaves in \<open>timer_loop\<close>. The test of line 192 takes the first reading of
  the clock, the tests of line 193 the following ones.
\<close>

definition tick :: "pyfloat \<Rightarrow> (nat \<Rightarrow> real) \<Rightarrow> pyfloat \<Rightarrow> (bool \<times> pyfloat) option" where
  "tick p clock t =
     (if float_lt t (Fin (clock 0)) then
        (case advance_timer p clock 1 t of None \<Rightarrow> None | Some t' \<Rightarrow> Some (True, t'))
      else Some (False, t))"

text \<open>
  Lines 201-211 and 218-228: the debug message. Its arguments are evaluated before the
  logger is called, so a measurement that is true is subscripted at \<open>[0]\<close> and \<open>[1]\<close>.
\<close>

definition log_last_measurement :: "pyval \<Rightarrow> error + unit" where
  "log_last_measurement m =
     (if truthy m then
        (case py_getitem m 0 of Inl e \<Rightarrow> Inl e
         | Inr ts \<Rightarrow> (case py_getitem m 1 of Inl e \<Rightarrow> Inl e | Inr meas \<Rightarrow> Inr ()))
      else Inr ())"

text \<open>
  Lines 230-236, the block the specification calls \<open>combine\<close>: \<open>None\<close> when the guard
  of line 230 is false, the value of \<open>difference\<close> otherwise.
\<close>

definition combine :: "pyval \<Rightarrow> pyval \<Rightarrow> bool \<Rightarrow> bool \<Rightarrow> error + pyval option" where
  "combine last_measurement_a last_measurement_b reverse absolute =
     (if truthy last_measurement_a \<and> truthy last_measurement_b then
        (case (if reverse then py_sub last_measurement_b last_measurement_a
               else py_sub last_measurement_a last_measurement_b) of
           Inl e \<Rightarrow> Inl e
         | Inr difference \<Rightarrow>
             (if absolute then
                (case py_abs difference of Inl e \<Rightarrow> Inl e | Inr d \<Rightarrow> Inr (Some d))
              else Inr (Some difference)))
      else Inr None)"

text \<open>
  Lines 240-245. The result is the list of calls made to \<open>write_influxdb_value\<close> and the
  exception raised, if any.
\<close>

definition emit :: "env \<Rightarrow> custom_module \<Rightarrow> pyval \<Rightarrow> influx_call list \<times> error option" where
  "emit e self difference =
     (case channels_measurement self 0 of
        None \<Rightarrow> ([], Some KeyError)
      | Some ch \<Rightarrow>
          (let c = \<lparr>call_unique_id = unique_id self, call_unit = unit ch,
                    call_value = difference, call_measure = measurement ch,
                    call_channel = 0\<rparr>
           in ([c], write_influxdb_value e c)))"

text \<open>Lines 196-245, what a firing call does after the deadline has been moved.\<close>

definition loop_body :: "env \<Rightarrow> custom_module \<Rightarrow> influx_call list \<times> error option" where
  "loop_body e self =
     (case get_last_measurement e (select_measurement_a_device_id self)
             (select_measurement_a_measurement_id self) (measurement_max_age_a self) of
        Inl x \<Rightarrow> ([], Some x)
      | Inr last_measurement_a \<Rightarrow>
     (case log_last_measurement last_measurement_a of
        Inl x \<Rightarrow> ([], Some x)
      | Inr _ \<Rightarrow>
     (case get_last_measurement e (select_measurement_b_device_id self)
             (select_measurement_b_measurement_id self) (measurement_max_age_b self) of
        Inl x \<Rightarrow> ([], Some x)
      | Inr last_measurement_b \<Rightarrow>
     (case log_last_measurement last_measurement_b of
        Inl x \<Rightarrow> ([], Some x)
      | Inr _ \<Rightarrow>
     (case combine last_measurement_a last_measurement_b
             (difference_reverse_order self) (difference_absolute self) of
        Inl x \<Rightarrow> ([], Some x)
      | Inr None \<Rightarrow> ([], None)
      | Inr (Some difference) \<Rightarrow> emit e self difference)))))"

text \<open>
  The whole method. The result is \<open>None\<close> when the call does not return; otherwise the
  object as the call leaves it (also when an exception leaves the method: the assignment
  to \<open>timer_loop\<close> is not undone), the calls made to \<open>write_influxdb_value\<close>, and the
  exception that left the method, if any.
\<close>

definition loop ::
  "env \<Rightarrow> (nat \<Rightarrow> real) \<Rightarrow> custom_module
     \<Rightarrow> (custom_module \<times> influx_call list \<times> error option) option" where
  "loop e clock self =
     (case tick (period self) clock (timer_loop self) of
        None \<Rightarrow> None
      | Some (False, t) \<Rightarrow> Some (self, [], None)
      | Some (True, t) \<Rightarrow>
          (let self' = self\<lparr>timer_loop := t\<rparr> in
           case loop_body e self' of (calls, exc) \<Rightarrow> Some (self', calls, exc)))"

text \<open>
  A run of the scheduler: \<open>loop\<close> called once for every clock of the list, in order.
  The result is the number of calls that fired and the deadline after the last call.
\<close>

fun ticks :: "pyfloat \<Rightarrow> (nat \<Rightarrow> real) list \<Rightarrow> pyfloat \<Rightarrow> (nat \<times> pyfloat) option" where
  "ticks p [] t = Some (0, t)"
| "ticks p (clock # clocks) t =
     (case tick p clock t of
        None \<Rightarrow> None
      | Some (fired, t') \<Rightarrow>
          (case ticks p clocks t' of
             None \<Rightarrow> None
           | Some (k, t'') \<Rightarrow> Some ((if fired then Suc k else k), t'')))"

text \<open>A clock that stands still during a call: every reading returns \<open>now\<close>.\<close>

definition still :: "real \<Rightarrow> nat \<Rightarrow> real" where
  "still now = (\<lambda>i. now)"

subsection \<open>The reader of the scenario\<close>

text \<open>
  Modelled from the spec: \<open>get_last_measurement\<close> is inherited from the base class,
  which is not part of this module. Section 4.2 of the specification: the latest sample of
  the stream is returned unchanged if its age does not exceed the bound (accepted iff
  \<open>age \<le> max_age\<close>), otherwise the result is absent. A stream is a list of samples
  (timestamp, value) in order of arrival.
\<close>

definition read_latest :: "(real \<times> real) list \<Rightarrow> real \<Rightarrow> int \<Rightarrow> pyval" where
  "read_latest samples now max_age =
     (case samples of
        [] \<Rightarrow> PNone
      | _ \<Rightarrow> (let (ts, v) = last samples in
              if now - ts \<le> of_int max_age then PTuple [PNum ts, PNum v] else PNone))"

subsection \<open>The scenario of the specification, and collaborators that fail or find nothing\<close>

text \<open>
  The unit of the scenario: created at time \<open>0\<close> (so the deadline starts at \<open>0\<close>),
  period 60 s, both staleness bounds 360 s, neither flag set. Stream A holds the samples
  (0, 5.0) and (55, 8.0), stream B the sample (10, 3.0); the call is made at time 60.
\<close>

definition scenario_module :: custom_module where
  "scenario_module =
     \<lparr>unique_id = ''difference'', timer_loop = Fin 0, period = Fin 60,
      select_measurement_a_device_id = ''A'', select_measurement_a_measurement_id = ''0'',
      measurement_max_age_a = 360,
      select_measurement_b_device_id = ''B'', select_measurement_b_measurement_id = ''0'',
      measurement_max_age_b = 360,
      difference_reverse_order = False, difference_absolute = False,
      channels_measurement = [0 \<mapsto> \<lparr>unit = ''C'', measurement = ''temperature''\<rparr>]\<rparr>"

definition scenario_env :: env where
  "scenario_env =
     \<lparr>get_last_measurement =
        (\<lambda>device_id measurement_id max_age.
           if device_id = ''A'' then Inr (read_latest [(0, 5), (55, 8)] 60 max_age)
           else Inr (read_latest [(10, 3)] 60 max_age)),
      write_influxdb_value = (\<lambda>c. None)\<rparr>"

definition failing_env :: env where
  "failing_env =
     \<lparr>get_last_measurement = (\<lambda>device_id measurement_id max_age. Inl IOError),
      write_influxdb_value = (\<lambda>c. None)\<rparr>"

definition absent_env :: env where
  "absent_env =
     \<lparr>get_last_measurement = (\<lambda>device_id measurement_id max_age. Inr PNone),
      write_influxdb_value = (\<lambda>c. None)\<rparr>"

text \<open>
  Collaborators with fixed results: what the read of stream A returns or raises, what the
  read of stream B does, and what the write does.
\<close>

definition stub_env :: "error + pyval \<Rightarrow> error + pyval \<Rightarrow> error option \<Rightarrow> env" where
  "stub_env result_a result_b result_write =
     \<lparr>get_last_measurement =
        (\<lambda>device_id measurement_id max_age. if device_id = ''A'' then result_a else result_b),
      write_influxdb_value = (\<lambda>c. result_write)\<rparr>"

declare binade.simps [simp del]

section \<open>Properties\<close>

subsection \<open>Rounding\<close>

lemma binade_bounds:
  "0 < x \<Longrightarrow> power_int 2 (binade x) \<le> x \<and> x < 2 * power_int 2 (binade x)"
proof (induction x rule: binade.induct)
  case (1 x)
  show ?case
  proof (cases "2 \<le> x")
    case True
    with 1 have IH: "power_int 2 (binade (x / 2)) \<le> x / 2 \<and> x / 2 < 2 * power_int 2 (binade (x / 2))"
      by simp
    have b: "binade x = binade (x / 2) + 1" using True 1(3) by (subst binade.simps) simp
    have "power_int (2::real) (binade (x / 2) + 1) = 2 * power_int 2 (binade (x / 2))"
      by (simp add: power_int_add)
    with IH b show ?thesis by simp
  next
    case False
    show ?thesis
    proof (cases "x < 1")
      case True
      with 1 False have IH: "power_int 2 (binade (x * 2)) \<le> x * 2 \<and> x * 2 < 2 * power_int 2 (binade (x * 2))"
        by simp
      have b: "binade x = binade (x * 2) - 1" using True False 1(3) by (subst binade.simps) simp
      have "power_int (2::real) (binade (x * 2) - 1) = power_int 2 (binade (x * 2)) / 2"
        by (simp add: power_int_diff)
      with IH b show ?thesis by simp
    next
      case F2: False
      with False 1(3) have "binade x = 0" by (subst binade.simps) simp
      with F2 False show ?thesis by simp
    qed
  qed
qed

lemma round_half_even_error: "\<bar>of_int (round_half_even y) - y\<bar> \<le> 1 / 2"
proof -
  have "of_int \<lfloor>y\<rfloor> \<le> y" "y < of_int \<lfloor>y\<rfloor> + 1" by linarith+
  then show ?thesis by (auto simp: round_half_even_def Let_def)
qed

lemma round_half_even_neg: "y < 0 \<Longrightarrow> round_half_even y \<le> 0"
proof -
  assume "y < 0"
  then have "\<lfloor>y\<rfloor> \<le> - 1" by (simp add: floor_le_iff)
  then show ?thesis by (auto simp: round_half_even_def Let_def)
qed

text \<open>
  The rounded value differs from the exact one by at most half the spacing of the doubles
  at that magnitude.
\<close>

lemma round_double_error:
  assumes "x \<noteq> 0"
  shows "\<exists>r. r = of_int (round_half_even (x / power_int 2 (max (binade \<bar>x\<bar> - 52) (- 1074))))
              * power_int 2 (max (binade \<bar>x\<bar> - 52) (- 1074))
           \<and> \<bar>r - x\<bar> \<le> max (\<bar>x\<bar> / 2 ^ 53) (power_int 2 (- 1074) / 2)"
proof -
  define j where "j = max (binade \<bar>x\<bar> - 52) (- 1074)"
  define u :: real where "u = power_int 2 j"
  define r where "r = of_int (round_half_even (x / u)) * u"
  have upos: "0 < u" by (simp add: u_def)
  have "\<bar>r - x\<bar> = \<bar>of_int (round_half_even (x / u)) - x / u\<bar> * u"
  proof -
    have "r - x = (of_int (round_half_even (x / u)) - x / u) * u"
      using upos by (simp add: r_def field_simps)
    then show ?thesis using upos by (simp add: abs_mult)
  qed
  also have "\<dots> \<le> (1 / 2) * u"
    using round_half_even_error[of "x / u"] upos by (intro mult_right_mono) simp_all
  finally have err: "\<bar>r - x\<bar> \<le> u / 2" by simp
  have "u \<le> max (\<bar>x\<bar> / 2 ^ 52) (power_int 2 (- 1074))"
  proof (cases "binade \<bar>x\<bar> - 52 \<le> - 1074")
    case True
    then have "j = - 1074" by (simp add: j_def)
    then show ?thesis by (simp add: u_def)
  next
    case False
    then have "j = binade \<bar>x\<bar> - 52" by (simp add: j_def)
    then have "u = power_int 2 (binade \<bar>x\<bar>) / 2 ^ 52"
      by (simp add: u_def power_int_diff)
    moreover have "power_int 2 (binade \<bar>x\<bar>) \<le> \<bar>x\<bar>"
      using binade_bounds[of "\<bar>x\<bar>"] assms by simp
    ultimately have "u \<le> \<bar>x\<bar> / 2 ^ 52" by (simp add: divide_right_mono)
    then show ?thesis by simp
  qed
  then have "u / 2 \<le> max (\<bar>x\<bar> / 2 ^ 53) (power_int 2 (- 1074) / 2)" by auto
  with err have "\<bar>r - x\<bar> \<le> max (\<bar>x\<bar> / 2 ^ 53) (power_int 2 (- 1074) / 2)" by linarith
  then show ?thesis unfolding r_def u_def j_def by blast
qed

text \<open>
  The addition of a period that is at least \<open>2 ^ - 52\<close> times the magnitude of the
  deadline is not absorbed: the sum is above the deadline by a quarter of the period or more.
\<close>

lemma round_double_step:
  assumes "\<bar>a\<bar> \<le> M" "M \<le> q * 2 ^ 52" "power_int 2 (- 1074) \<le> q" "M < 2 ^ 1024"
  shows "\<exists>r. a + q / 4 \<le> r \<and> r \<le> a + 2 * q
           \<and> round_double (a + q) = (if 2 ^ 1024 \<le> r then PInf else Fin r)"
proof (cases "a + q = 0")
  case True
  have "0 < q" using assms(3) zero_less_power_int[of "2::real" "- 1074"] by linarith
  with True have "a + q / 4 \<le> 0" "0 \<le> a + 2 * q" by linarith+
  moreover have "round_double (a + q) = (if 2 ^ 1024 \<le> (0::real) then PInf else Fin 0)"
    using True by (simp add: round_double_def)
  ultimately show ?thesis by blast
next
  case False
  have qpos: "0 < q" using assms(3) zero_less_power_int[of "2::real" "- 1074"] by linarith
  from round_double_error[OF False] obtain r where r:
    "r = of_int (round_half_even ((a + q) / power_int 2 (max (binade \<bar>a + q\<bar> - 52) (- 1074))))
              * power_int 2 (max (binade \<bar>a + q\<bar> - 52) (- 1074))"
    "\<bar>r - (a + q)\<bar> \<le> max (\<bar>a + q\<bar> / 2 ^ 53) (power_int 2 (- 1074) / 2)" by blast
  have "\<bar>a + q\<bar> \<le> q * 2 ^ 52 + q" using assms(1,2) qpos by linarith
  then have "\<bar>a + q\<bar> / 2 ^ 53 \<le> (q * 2 ^ 52 + q) / 2 ^ 53" by (simp add: divide_right_mono)
  also have "\<dots> = q / 2 + q / 2 ^ 53" by (simp add: add_divide_distrib)
  also have "\<dots> \<le> q / 2 + q / 4"
  proof -
    have "q / 2 ^ 53 \<le> q / 4" using qpos by (intro divide_left_mono) simp_all
    then show ?thesis by simp
  qed
  finally have b1: "\<bar>a + q\<bar> / 2 ^ 53 \<le> 3 * q / 4" by simp
  have b2: "power_int 2 (- 1074) / 2 \<le> 3 * q / 4" using assms(3) qpos by linarith
  from r(2) b1 b2 have "\<bar>r - (a + q)\<bar> \<le> 3 * q / 4" by linarith
  then have lo: "a + q / 4 \<le> r" and hi: "r \<le> a + 2 * q" using qpos by linarith+
  have "round_double (a + q) = (if 2 ^ 1024 \<le> r then PInf else Fin r)"
  proof (cases "2 ^ 1024 \<le> \<bar>r\<bar>")
    case F: False
    with False r(1) have "round_double (a + q) = Fin r"
      by (simp add: round_double_def Let_def)
    moreover from F have "\<not> 2 ^ 1024 \<le> r" by linarith
    ultimately show ?thesis by simp
  next
    case True
    have lower: "- (2 ^ 1024) < r" using assms(1,4) lo qpos by linarith
    with True have big: "2 ^ 1024 \<le> r" by linarith
    have "0 < a + q"
    proof (rule ccontr)
      assume "\<not> 0 < a + q"
      with False have neg: "a + q < 0" by simp
      have "0 < power_int (2::real) (max (binade \<bar>a + q\<bar> - 52) (- 1074))" by simp
      with neg have "(a + q) / power_int 2 (max (binade \<bar>a + q\<bar> - 52) (- 1074)) < 0"
        by (simp add: divide_neg_pos)
      from round_half_even_neg[OF this] have "r \<le> 0"
        unfolding r(1) by (simp add: mult_nonpos_nonneg)
      with big show False by simp
    qed
    with True False r(1) have "round_double (a + q) = PInf"
      by (simp add: round_double_def Let_def)
    with big show ?thesis by simp
  qed
  with lo hi show ?thesis by blast
qed

text \<open>
  Evaluation of the model at given numbers.
\<close>

lemmas eval_simps = round_double_def binade.simps round_half_even_def Let_def tick_def
  advance_timer.simps still_def

subsection \<open>The catch-up loop and the scheduler\<close>

lemma add_periods_Suc: "add_periods p (Suc m) t = float_add (add_periods p m t) p"
  by (induction m arbitrary: t) simp_all

lemma add_periods_add: "add_periods p (m + n) t = add_periods p n (add_periods p m t)"
  by (induction m arbitrary: t) simp_all

text \<open>
  The loop returns the deadline after \<open>m\<close> additions when that is the first one not
  below the clock.
\<close>

lemma advance_timer_first:
  assumes "\<forall>k<m. float_lt (add_periods p k t) (Fin (clock (i + k)))"
    and "\<not> float_lt (add_periods p m t) (Fin (clock (i + m)))"
  shows "advance_timer p clock i t = Some (add_periods p m t)"
  using assms
proof (induction m arbitrary: i t)
  case 0
  then show ?case by (simp add: advance_timer.simps)
next
  case (Suc m)
  from Suc.prems(1) have first: "float_lt t (Fin (clock i))" by force
  have "\<forall>k<m. float_lt (add_periods p k (float_add t p)) (Fin (clock (Suc i + k)))"
  proof (intro allI impI)
    fix k assume "k < m"
    then have "Suc k < Suc m" by simp
    with Suc.prems(1) have "float_lt (add_periods p (Suc k) t) (Fin (clock (i + Suc k)))" by blast
    then show "float_lt (add_periods p k (float_add t p)) (Fin (clock (Suc i + k)))" by simp
  qed
  moreover have "\<not> float_lt (add_periods p m (float_add t p)) (Fin (clock (Suc i + m)))"
    using Suc.prems(2) by simp
  ultimately have "advance_timer p clock (Suc i) (float_add t p)
                     = Some (add_periods p m (float_add t p))" by (rule Suc.IH)
  with first show ?case by (subst advance_timer.simps) simp
qed

text \<open>
  When the addition of the period leaves the deadline as it is and the deadline is below
  every reading of the clock, the loop never returns.
\<close>

lemma advance_timer_absorbed_aux:
  assumes "advance_timer p clock i t = Some y"
  shows "\<not> (float_add t p = t \<and> (\<forall>j. float_lt t (Fin (clock j))))"
proof (rule advance_timer.raw_induct[where
      P = "\<lambda>p clock i t y. \<not> (float_add t p = t \<and> (\<forall>j. float_lt t (Fin (clock j))))", OF _ assms])
  fix f :: "pyfloat \<Rightarrow> (nat \<Rightarrow> real) \<Rightarrow> nat \<Rightarrow> pyfloat \<Rightarrow> pyfloat option"
    and p clock i t y
  assume IH: "\<And>p clock i t y. f p clock i t = Some y \<Longrightarrow>
                 \<not> (float_add t p = t \<and> (\<forall>j. float_lt t (Fin (clock j))))"
    and eq: "(if float_lt t (Fin (clock i)) then f p clock (Suc i) (float_add t p) else Some t) = Some y"
  show "\<not> (float_add t p = t \<and> (\<forall>j. float_lt t (Fin (clock j))))"
  proof
    assume a: "float_add t p = t \<and> (\<forall>j. float_lt t (Fin (clock j)))"
    with eq have "f p clock (Suc i) t = Some y" by simp
    from IH[OF this] a show False by simp
  qed
qed

lemma advance_timer_absorbed:
  "float_add t p = t \<Longrightarrow> \<forall>j. float_lt t (Fin (clock j)) \<Longrightarrow> advance_timer p clock i t = None"
  using advance_timer_absorbed_aux[of p clock i t] by (cases "advance_timer p clock i t") auto

text \<open>
  With a period that is not absorbed and a clock that stays at or below \<open>N\<close> the loop
  returns. The proof is by induction on the number of quarter periods between the deadline
  and \<open>N\<close>.
\<close>

lemma advance_timer_returns:
  assumes "\<forall>i. clock i \<le> N" "N \<le> M" "M \<le> q * 2 ^ 52" "power_int 2 (- 1074) \<le> q"
    "M < 2 ^ 1024" "- M \<le> a"
  shows "\<exists>m. advance_timer (Fin q) clock i (Fin a) = Some (add_periods (Fin q) m (Fin a))
           \<and> float_le (Fin (clock (i + m))) (add_periods (Fin q) m (Fin a))
           \<and> (\<forall>k<m. float_lt (add_periods (Fin q) k (Fin a)) (Fin (clock (i + k))))
           \<and> (0 < m \<longleftrightarrow> a < clock i)
           \<and> (M + 2 * q < 2 ^ 1024 \<longrightarrow> (\<exists>d. add_periods (Fin q) m (Fin a) = Fin d \<and> a \<le> d))"
  using assms(6)
proof (induction "nat \<lceil>(N - a) * 4 / q\<rceil>" arbitrary: a i rule: less_induct)
  case less
  have qpos: "0 < q" using assms(4) zero_less_power_int[of "2::real" "- 1074"] by linarith
  show ?case
  proof (cases "a < clock i")
    case False
    then have "advance_timer (Fin q) clock i (Fin a) = Some (Fin a)"
      by (subst advance_timer.simps) simp
    with False show ?thesis by (intro exI[of _ 0]) simp
  next
    case True
    with assms(1) have aN: "a < N" by (meson less_le_trans)
    with less.prems assms(2) have "\<bar>a\<bar> \<le> M" by linarith
    from round_double_step[OF this assms(3,4,5)] obtain r where r:
      "a + q / 4 \<le> r" "r \<le> a + 2 * q"
      "round_double (a + q) = (if 2 ^ 1024 \<le> r then PInf else Fin r)" by blast
    have un: "advance_timer (Fin q) clock i (Fin a)
                = advance_timer (Fin q) clock (Suc i) (round_double (a + q))"
      using True by (subst advance_timer.simps) simp
    show ?thesis
    proof (cases "2 ^ 1024 \<le> r")
      case T: True
      with r(3) have rd: "round_double (a + q) = PInf" by simp
      have "advance_timer (Fin q) clock (Suc i) PInf = Some PInf"
        by (subst advance_timer.simps) simp
      moreover have "\<not> M + 2 * q < 2 ^ 1024" using T r(2) aN assms(2) by linarith
      ultimately show ?thesis using un rd True by (intro exI[of _ 1]) simp
    next
      case F: False
      with r(3) have rd: "round_double (a + q) = Fin r" by simp
      have "(N - r) * 4 / q \<le> (N - a) * 4 / q - 1"
      proof -
        have "4 * a + q \<le> 4 * r" using r(1) by simp
        then have "(N - r) * 4 \<le> (N - a) * 4 - q" by (simp add: algebra_simps)
        then have "(N - r) * 4 / q \<le> ((N - a) * 4 - q) / q"
          using qpos by (simp add: divide_right_mono)
        also have "\<dots> = (N - a) * 4 / q - 1" using qpos by (simp add: diff_divide_distrib)
        finally show ?thesis .
      qed
      then have "\<lceil>(N - r) * 4 / q\<rceil> \<le> \<lceil>(N - a) * 4 / q\<rceil> - 1"
        by (metis ceiling_mono ceiling_diff_one)
      moreover have "0 < (N - a) * 4 / q" using aN qpos by simp
      then have "0 < \<lceil>(N - a) * 4 / q\<rceil>" by simp
      ultimately have dec: "nat \<lceil>(N - r) * 4 / q\<rceil> < nat \<lceil>(N - a) * 4 / q\<rceil>" by linarith
      have "- M \<le> r" using less.prems r(1) qpos by linarith
      from less.hyps[OF dec this, of "Suc i"] obtain m where m:
        "advance_timer (Fin q) clock (Suc i) (Fin r) = Some (add_periods (Fin q) m (Fin r))"
        "float_le (Fin (clock (Suc i + m))) (add_periods (Fin q) m (Fin r))"
        "\<forall>k<m. float_lt (add_periods (Fin q) k (Fin r)) (Fin (clock (Suc i + k)))"
        "M + 2 * q < 2 ^ 1024 \<longrightarrow> (\<exists>d. add_periods (Fin q) m (Fin r) = Fin d \<and> r \<le> d)" by blast
      have 1: "advance_timer (Fin q) clock i (Fin a) = Some (add_periods (Fin q) (Suc m) (Fin a))"
        using un rd m(1) by simp
      have 2: "float_le (Fin (clock (i + Suc m))) (add_periods (Fin q) (Suc m) (Fin a))"
        using rd m(2) by simp
      have 3: "\<forall>k<Suc m. float_lt (add_periods (Fin q) k (Fin a)) (Fin (clock (i + k)))"
      proof (intro allI impI)
        fix k assume k: "k < Suc m"
        show "float_lt (add_periods (Fin q) k (Fin a)) (Fin (clock (i + k)))"
        proof (cases k)
          case 0
          with True show ?thesis by simp
        next
          case (Suc k')
          with k have "k' < m" by simp
          with m(3) have "float_lt (add_periods (Fin q) k' (Fin r)) (Fin (clock (Suc i + k')))"
            by blast
          with Suc rd show ?thesis by simp
        qed
      qed
      have 4: "M + 2 * q < 2 ^ 1024 \<longrightarrow>
                 (\<exists>d. add_periods (Fin q) (Suc m) (Fin a) = Fin d \<and> a \<le> d)"
      proof
        assume "M + 2 * q < 2 ^ 1024"
        with m(4) obtain d where "add_periods (Fin q) m (Fin r) = Fin d" "r \<le> d" by blast
        moreover have "a \<le> r" using r(1) qpos by linarith
        ultimately show "\<exists>d. add_periods (Fin q) (Suc m) (Fin a) = Fin d \<and> a \<le> d"
          using rd by auto
      qed
      from 1 2 3 4 True show ?thesis by (intro exI[of _ "Suc m"]) simp
    qed
  qed
qed

lemma float_le_not_lt: "float_le (Fin n) x \<Longrightarrow> \<not> float_lt x (Fin n)"
  by (cases x) auto

lemma tick_no_fire: "\<not> float_lt t (Fin (clock 0)) \<Longrightarrow> tick p clock t = Some (False, t)"
  by (simp add: tick_def)

lemma tick_fire:
  assumes "a < now" "\<bar>a\<bar> \<le> M" "\<bar>now\<bar> \<le> M" "M \<le> q * 2 ^ 52" "power_int 2 (- 1074) \<le> q"
    "M < 2 ^ 1024"
  shows "\<exists>m>0. tick (Fin q) (still now) (Fin a) = Some (True, add_periods (Fin q) m (Fin a))
           \<and> float_le (Fin now) (add_periods (Fin q) m (Fin a))
           \<and> (\<forall>k<m. float_lt (add_periods (Fin q) k (Fin a)) (Fin now))"
proof -
  have c: "\<forall>i. still now i \<le> now" by (simp add: still_def)
  have n: "now \<le> M" "- M \<le> a" using assms(2,3) by linarith+
  from advance_timer_returns[OF c n(1) assms(4,5,6) n(2), of 1] obtain m where m:
    "advance_timer (Fin q) (still now) 1 (Fin a) = Some (add_periods (Fin q) m (Fin a))"
    "float_le (Fin (still now (1 + m))) (add_periods (Fin q) m (Fin a))"
    "\<forall>k<m. float_lt (add_periods (Fin q) k (Fin a)) (Fin (still now (1 + k)))"
    "0 < m \<longleftrightarrow> a < still now 1" by blast
  from m(4) assms(1) have "0 < m" by (simp add: still_def)
  moreover have "tick (Fin q) (still now) (Fin a) = Some (True, add_periods (Fin q) m (Fin a))"
    using m(1) assms(1) by (simp add: tick_def still_def)
  ultimately show ?thesis using m(2,3) by (auto simp: still_def)
qed

lemma tick_fire_finite:
  assumes "a < now" "- M \<le> a" "\<bar>now\<bar> \<le> M" "M \<le> q * 2 ^ 52" "power_int 2 (- 1074) \<le> q"
    "M + 2 * q < 2 ^ 1024"
  shows "\<exists>m d. 0 < m \<and> tick (Fin q) (still now) (Fin a) = Some (True, Fin d)
           \<and> add_periods (Fin q) m (Fin a) = Fin d \<and> now \<le> d \<and> a \<le> d
           \<and> float_lt (add_periods (Fin q) (m - 1) (Fin a)) (Fin now)"
proof -
  have qpos: "0 < q" using assms(5) zero_less_power_int[of "2::real" "- 1074"] by linarith
  have c: "\<forall>i. still now i \<le> now" by (simp add: still_def)
  have n: "now \<le> M" "M < 2 ^ 1024" using assms(3,6) qpos by linarith+
  from advance_timer_returns[OF c n(1) assms(4,5) n(2) assms(2), of 1] obtain m where m:
    "advance_timer (Fin q) (still now) 1 (Fin a) = Some (add_periods (Fin q) m (Fin a))"
    "float_le (Fin (still now (1 + m))) (add_periods (Fin q) m (Fin a))"
    "\<forall>k<m. float_lt (add_periods (Fin q) k (Fin a)) (Fin (still now (1 + k)))"
    "0 < m \<longleftrightarrow> a < still now 1"
    "M + 2 * q < 2 ^ 1024 \<longrightarrow> (\<exists>d. add_periods (Fin q) m (Fin a) = Fin d \<and> a \<le> d)" by blast
  from m(4) assms(1) have mpos: "0 < m" by (simp add: still_def)
  from m(5) assms(6) obtain d where d: "add_periods (Fin q) m (Fin a) = Fin d" "a \<le> d" by blast
  from m(2) d(1) have "now \<le> d" by (simp add: still_def)
  moreover have "tick (Fin q) (still now) (Fin a) = Some (True, Fin d)"
    using m(1) d(1) assms(1) by (simp add: tick_def still_def)
  moreover from m(3) mpos have "float_lt (add_periods (Fin q) (m - 1) (Fin a)) (Fin now)"
    by (simp add: still_def)
  ultimately show ?thesis using mpos d by blast
qed

text \<open>
  A run of calls, each with a clock that stands still: every call that fires adds the
  period at least once, and the deadline ends at or above every time of the run.
\<close>

lemma ticks_run:
  assumes "\<forall>now\<in>set nows. \<bar>now\<bar> \<le> M" "M \<le> q * 2 ^ 52" "power_int 2 (- 1074) \<le> q"
    "M + 2 * q < 2 ^ 1024" "- M \<le> a"
  shows "\<exists>k m d. ticks (Fin q) (map still nows) (Fin a) = Some (k, Fin d)
           \<and> add_periods (Fin q) m (Fin a) = Fin d \<and> k \<le> m \<and> (k = 0 \<longleftrightarrow> m = 0)
           \<and> (m = 0 \<longleftrightarrow> (\<forall>now\<in>set nows. now \<le> a))
           \<and> a \<le> d \<and> (\<forall>now\<in>set nows. now \<le> d)
           \<and> (0 < m \<longrightarrow> (\<exists>now\<in>set nows. float_lt (add_periods (Fin q) (m - 1) (Fin a)) (Fin now)))"
  using assms(1,5)
proof (induction nows arbitrary: a)
  case Nil
  show ?case by (intro exI[of _ 0] exI[of _ a]) simp
next
  case (Cons now nows)
  then have B: "\<bar>now\<bar> \<le> M" "\<forall>x\<in>set nows. \<bar>x\<bar> \<le> M" by simp_all
  show ?case
  proof (cases "a < now")
    case False
    then have tk: "tick (Fin q) (still now) (Fin a) = Some (False, Fin a)"
      by (simp add: tick_no_fire still_def)
    from Cons.IH[OF B(2) Cons.prems(2)] obtain k m d where km:
      "ticks (Fin q) (map still nows) (Fin a) = Some (k, Fin d)"
      "add_periods (Fin q) m (Fin a) = Fin d" "k \<le> m" "k = 0 \<longleftrightarrow> m = 0"
      "m = 0 \<longleftrightarrow> (\<forall>x\<in>set nows. x \<le> a)" "a \<le> d" "\<forall>x\<in>set nows. x \<le> d"
      "0 < m \<longrightarrow> (\<exists>x\<in>set nows. float_lt (add_periods (Fin q) (m - 1) (Fin a)) (Fin x))"
      by blast
    have 1: "ticks (Fin q) (map still (now # nows)) (Fin a) = Some (k, Fin d)"
      using tk km(1) by simp
    have 2: "m = 0 \<longleftrightarrow> (\<forall>x\<in>set (now # nows). x \<le> a)" using km(5) False by simp
    have 3: "\<forall>x\<in>set (now # nows). x \<le> d" using km(6,7) False by auto
    have 4: "0 < m \<longrightarrow> (\<exists>x\<in>set (now # nows).
               float_lt (add_periods (Fin q) (m - 1) (Fin a)) (Fin x))"
      using km(8) by auto
    from 1 km(2,3,4) 2 km(6) 3 4 show ?thesis by blast
  next
    case True
    from tick_fire_finite[OF True Cons.prems(2) B(1) assms(2,3,4)] obtain m1 d1 where m1:
      "0 < m1" "tick (Fin q) (still now) (Fin a) = Some (True, Fin d1)"
      "add_periods (Fin q) m1 (Fin a) = Fin d1" "now \<le> d1" "a \<le> d1"
      "float_lt (add_periods (Fin q) (m1 - 1) (Fin a)) (Fin now)" by blast
    have lo: "- M \<le> d1" using Cons.prems(2) m1(5) by linarith
    from Cons.IH[OF B(2) lo] obtain k m d where km:
      "ticks (Fin q) (map still nows) (Fin d1) = Some (k, Fin d)"
      "add_periods (Fin q) m (Fin d1) = Fin d" "k \<le> m" "k = 0 \<longleftrightarrow> m = 0"
      "m = 0 \<longleftrightarrow> (\<forall>x\<in>set nows. x \<le> d1)" "d1 \<le> d" "\<forall>x\<in>set nows. x \<le> d"
      "0 < m \<longrightarrow> (\<exists>x\<in>set nows. float_lt (add_periods (Fin q) (m - 1) (Fin d1)) (Fin x))"
      by blast
    have 1: "ticks (Fin q) (map still (now # nows)) (Fin a) = Some (Suc k, Fin d)"
      using m1(2) km(1) by simp
    have 2: "add_periods (Fin q) (m1 + m) (Fin a) = Fin d"
      using m1(3) km(2) by (simp add: add_periods_add)
    have 3: "Suc k \<le> m1 + m" using m1(1) km(3) by simp
    have 4: "\<not> (\<forall>x\<in>set (now # nows). x \<le> a)" using True by auto
    have 5: "a \<le> d" "\<forall>x\<in>set (now # nows). x \<le> d" using m1(4,5) km(6,7) by auto
    have 6: "\<exists>x\<in>set (now # nows). float_lt (add_periods (Fin q) (m1 + m - 1) (Fin a)) (Fin x)"
    proof (cases "m = 0")
      case True
      with m1(6) show ?thesis by simp
    next
      case False
      then have "m1 + m - 1 = m1 + (m - 1)" by simp
      then have "add_periods (Fin q) (m1 + m - 1) (Fin a) = add_periods (Fin q) (m - 1) (Fin d1)"
        using m1(3) by (simp add: add_periods_add)
      with km(8) False show ?thesis by auto
    qed
    from 1 2 3 4 5 6 m1(1) show ?thesis
      by (intro exI[of _ "Suc k"] exI[of _ "m1 + m"] exI[of _ d]) simp
  qed
qed

text \<open>
  Rounding shows in the count of additions: with the doubles nearest to 0.1 (the period)
  and 0.8 (the time of the call) and the deadline 0, eight additions give the double
  0.7999999999999999, which is below the double 0.8, so the period is added a ninth time
  and the deadline is left at 0.8999999999999999.
\<close>

lemma ticks_rounding_example: "ticks (Fin (3602879701896397 / 2 ^ 55)) [still (3602879701896397 / 2 ^ 52)] (Fin 0)
   = Some (1, Fin (2026619832316723 / 2 ^ 51))"
  by (simp add: eval_simps)

subsection \<open>The validator\<close>

lemma validator_finite:
  "constraints_pass_positive_value mod_controller (Fin x)
     = (0 < x, (if x \<le> 0 then [''Must be a positive value''] else []), mod_controller)"
  by (auto simp: constraints_pass_positive_value_def)

subsection \<open>The difference block\<close>

text \<open>
  Applied to two numbers that are true, the block computes the four differences. Applied
  to two samples, as \<open>loop\<close> applies it, it raises: a sequence has no subtraction.
\<close>

lemma combine_numbers:
  assumes "a \<noteq> 0" "b \<noteq> 0"
  shows "combine (PNum a) (PNum b) False False = Inr (Some (PNum (a - b)))"
    and "combine (PNum a) (PNum b) True False = Inr (Some (PNum (b - a)))"
    and "combine (PNum a) (PNum b) False True = Inr (Some (PNum \<bar>a - b\<bar>))"
    and "combine (PNum a) (PNum b) True True = Inr (Some (PNum \<bar>b - a\<bar>))"
  using assms by (simp_all add: combine_def)

lemma combine_sequences:
  "combine (PTuple (x # xs)) (PTuple (y # ys)) reverse absolute = Inl TypeError"
  by (simp add: combine_def)

lemma log_ok_truthy:
  assumes "log_last_measurement m = Inr u" "truthy m"
  shows "\<exists>x y zs. m = PTuple (x # y # zs)"
proof (cases m)
  case PNone
  with assms show ?thesis by simp
next
  case (PNum r)
  with assms show ?thesis by (simp add: log_last_measurement_def)
next
  case (PTuple xs)
  with assms have "1 < length xs"
    by (simp add: log_last_measurement_def split: if_splits)
  then obtain x y zs where "xs = x # y # zs"
    by (cases xs; cases "tl xs") auto
  with PTuple show ?thesis by simp
qed

subsection \<open>The method as a whole\<close>

subsection \<open>The method as a whole\<close>

lemma loop_no_fire:
  "\<not> float_lt (timer_loop self) (Fin (clock 0)) \<Longrightarrow> loop e clock self = Some (self, [], None)"
  by (simp add: loop_def tick_no_fire)

lemma loop_of_tick:
  assumes "tick (period self) clock (timer_loop self) = Some (True, t')"
  shows "loop e clock self = Some (self\<lparr>timer_loop := t'\<rparr>, loop_body e (self\<lparr>timer_loop := t'\<rparr>))"
  using assms by (simp add: loop_def Let_def split: prod.splits)

lemma loop_body_calls:
  assumes "loop_body e self = (calls, exc)"
  shows "calls = [] \<or> (\<exists>c. calls = [c] \<and> exc = write_influxdb_value e c)"
  using assms
  by (auto simp: loop_body_def emit_def Let_def split: sum.splits option.splits)

lemma loop_body_absent:
  assumes "get_last_measurement e (select_measurement_a_device_id self)
             (select_measurement_a_measurement_id self) (measurement_max_age_a self) = Inr PNone
         \<or> get_last_measurement e (select_measurement_b_device_id self)
             (select_measurement_b_measurement_id self) (measurement_max_age_b self) = Inr PNone"
  shows "fst (loop_body e self) = []"
  using assms
  by (auto simp: loop_body_def combine_def split: sum.splits option.splits)

lemma loop_period:
  assumes "loop e clock self = Some (self', calls, exc)"
  shows "period self' = period self"
  using assms
  by (auto simp: loop_def Let_def split: option.splits prod.splits bool.splits)

text \<open>
  A consequence of lines 232 and 234: whatever the collaborators return, no call of
  \<open>write_influxdb_value\<close> is reached. A measurement that passes the guard of line 230
  and the two debug messages is a sequence of at least two components, and the
  subtraction of two sequences raises.
\<close>

lemma loop_body_never_emits: "fst (loop_body e self) = []"
proof -
  have "combine a b r s \<noteq> Inr (Some d)"
    if "log_last_measurement a = Inr u" "log_last_measurement b = Inr u'" for a b r s d u u'
  proof (cases "truthy a \<and> truthy b")
    case False
    then show ?thesis by (auto simp: combine_def)
  next
    case True
    with that log_ok_truthy[of a u] log_ok_truthy[of b u'] obtain x y zs x' y' zs'
      where "a = PTuple (x # y # zs)" "b = PTuple (x' # y' # zs')" by blast
    then show ?thesis by (simp add: combine_sequences)
  qed
  then show ?thesis
    by (auto simp: loop_body_def split: sum.splits option.splits)
qed

section \<open>The claims\<close>

section \<open>The claims\<close>

text \<open>
  Claim C1 (difference of the two sample values). The claim does not hold of the code: the
  block subtracts the two samples themselves (lines 232 and 234), not their components
  \<open>[1]\<close>, and for every pair of samples (timestamp, value) and every setting of the
  flags the subtraction raises \<open>TypeError\<close>; no difference is computed.
\<close>

theorem combine_of_samples_raises:
  "combine (PTuple [PNum ta, PNum a]) (PTuple [PNum tb, PNum b]) reverse absolute = Inl TypeError"
  by (simp add: combine_def)

text \<open>
  Claim C2 (scenario: tick at 60, A = (55, 8.0), B = (10, 3.0)). Both samples are read as
  fresh; the call then raises \<open>TypeError\<close> at line 234 and no value is written (the
  claim expects one value, 5.0). The deadline has been moved to 60.
\<close>

theorem scenario_tick_raises:
  "get_last_measurement scenario_env ''A'' ''0'' 360 = Inr (PTuple [PNum 55, PNum 8])
   \<and> get_last_measurement scenario_env ''B'' ''0'' 360 = Inr (PTuple [PNum 10, PNum 3])
   \<and> loop scenario_env (still 60) scenario_module
       = Some (scenario_module\<lparr>timer_loop := Fin 60\<rparr>, [], Some TypeError)"
  by (simp add: scenario_env_def scenario_module_def read_latest_def loop_def eval_simps
      loop_body_def log_last_measurement_def combine_def)

text \<open>
  Claim C3, counterexample: a read that fails. The exception leaves \<open>loop\<close>; the
  method has no handler.
\<close>

theorem failed_read_leaves_loop:
  "loop failing_env (still 60) scenario_module
     = Some (scenario_module\<lparr>timer_loop := Fin 60\<rparr>, [], Some IOError)"
  by (simp add: failing_env_def scenario_module_def loop_def eval_simps loop_body_def)

text \<open>
  Claim C3 as amended: \<open>loop\<close> has no handler. In a call that fires, an exception
  raised by the read of A, by the debug message for A, by the read of B, by the debug
  message for B or by the difference block leaves \<open>loop\<close> as that same exception, with
  the deadline already moved and no call of \<open>write_influxdb_value\<close> made; and the write
  block (lines 240-245) hands on what \<open>write_influxdb_value\<close> raises. Whether the caller
  survives the exception is decided outside this module.
\<close>

theorem failure_leaves_loop:
  assumes "tick (period self) clock (timer_loop self) = Some (True, t')"
  shows "(get_last_measurement e (select_measurement_a_device_id self)
            (select_measurement_a_measurement_id self) (measurement_max_age_a self) = Inl x
          \<longrightarrow> loop e clock self = Some (self\<lparr>timer_loop := t'\<rparr>, [], Some x))
       \<and> (get_last_measurement e (select_measurement_a_device_id self)
            (select_measurement_a_measurement_id self) (measurement_max_age_a self) = Inr a
          \<and> log_last_measurement a = Inl x
          \<longrightarrow> loop e clock self = Some (self\<lparr>timer_loop := t'\<rparr>, [], Some x))
       \<and> (get_last_measurement e (select_measurement_a_device_id self)
            (select_measurement_a_measurement_id self) (measurement_max_age_a self) = Inr a
          \<and> log_last_measurement a = Inr ()
          \<and> get_last_measurement e (select_measurement_b_device_id self)
            (select_measurement_b_measurement_id self) (measurement_max_age_b self) = Inl x
          \<longrightarrow> loop e clock self = Some (self\<lparr>timer_loop := t'\<rparr>, [], Some x))
       \<and> (get_last_measurement e (select_measurement_a_device_id self)
            (select_measurement_a_measurement_id self) (measurement_max_age_a self) = Inr a
          \<and> log_last_measurement a = Inr ()
          \<and> get_last_measurement e (select_measurement_b_device_id self)
            (select_measurement_b_measurement_id self) (measurement_max_age_b self) = Inr b
          \<and> log_last_measurement b = Inl x
          \<longrightarrow> loop e clock self = Some (self\<lparr>timer_loop := t'\<rparr>, [], Some x))
       \<and> (get_last_measurement e (select_measurement_a_device_id self)
            (select_measurement_a_measurement_id self) (measurement_max_age_a self) = Inr a
          \<and> log_last_measurement a = Inr ()
          \<and> get_last_measurement e (select_measurement_b_device_id self)
            (select_measurement_b_measurement_id self) (measurement_max_age_b self) = Inr b
          \<and> log_last_measurement b = Inr ()
          \<and> combine a b (difference_reverse_order self) (difference_absolute self) = Inl x
          \<longrightarrow> loop e clock self = Some (self\<lparr>timer_loop := t'\<rparr>, [], Some x))
       \<and> (channels_measurement self 0 = Some ch
          \<longrightarrow> emit e self d
              = ([\<lparr>call_unique_id = unique_id self, call_unit = unit ch, call_value = d,
                    call_measure = measurement ch, call_channel = 0\<rparr>],
                 write_influxdb_value e
                   \<lparr>call_unique_id = unique_id self, call_unit = unit ch, call_value = d,
                    call_measure = measurement ch, call_channel = 0\<rparr>))"
  using loop_of_tick[OF assms, of e]
  by (simp add: loop_body_def emit_def Let_def)

text \<open>
  The amended claim C3 at the unit of the scenario and a call at time 130, once for each
  step that can fail.
\<close>

theorem failure_leaves_loop_witness:
  "tick (period scenario_module) (still 130) (timer_loop scenario_module) = Some (True, Fin 180)
   \<and> loop (stub_env (Inl IOError) (Inr PNone) None) (still 130) scenario_module
       = Some (scenario_module\<lparr>timer_loop := Fin 180\<rparr>, [], Some IOError)
   \<and> loop (stub_env (Inr (PNum 8)) (Inr PNone) None) (still 130) scenario_module
       = Some (scenario_module\<lparr>timer_loop := Fin 180\<rparr>, [], Some TypeError)
   \<and> loop (stub_env (Inr (PTuple [PNum 55, PNum 8])) (Inl IOError) None) (still 130) scenario_module
       = Some (scenario_module\<lparr>timer_loop := Fin 180\<rparr>, [], Some IOError)
   \<and> loop (stub_env (Inr (PTuple [PNum 55, PNum 8])) (Inr (PTuple [PNum 10])) None) (still 130)
        scenario_module
       = Some (scenario_module\<lparr>timer_loop := Fin 180\<rparr>, [], Some IndexError)
   \<and> loop (stub_env (Inr (PTuple [PNum 55, PNum 8])) (Inr (PTuple [PNum 10, PNum 3])) None)
        (still 130) scenario_module
       = Some (scenario_module\<lparr>timer_loop := Fin 180\<rparr>, [], Some TypeError)
   \<and> emit (stub_env (Inr PNone) (Inr PNone) (Some IOError)) scenario_module (PNum 5)
       = ([\<lparr>call_unique_id = ''difference'', call_unit = ''C'', call_value = PNum 5,
            call_measure = ''temperature'', call_channel = 0\<rparr>], Some IOError)"
proof -
  have tk: "tick (period scenario_module) (still 130) (timer_loop scenario_module)
              = Some (True, Fin 180)"
    by (simp add: scenario_module_def eval_simps)
  have sel: "select_measurement_a_device_id scenario_module = ''A''"
    "select_measurement_b_device_id scenario_module = ''B''"
    "difference_reverse_order scenario_module = False"
    "difference_absolute scenario_module = False"
    "channels_measurement scenario_module 0 = Some \<lparr>unit = ''C'', measurement = ''temperature''\<rparr>"
    "unique_id scenario_module = ''difference''"
    by (simp_all add: scenario_module_def)
  note w = failure_leaves_loop[OF tk]
  have 1: "loop (stub_env (Inl IOError) (Inr PNone) None) (still 130) scenario_module
       = Some (scenario_module\<lparr>timer_loop := Fin 180\<rparr>, [], Some IOError)"
    using w[where e = "stub_env (Inl IOError) (Inr PNone) None" and x = IOError]
    by (simp add: stub_env_def sel)
  have 2: "loop (stub_env (Inr (PNum 8)) (Inr PNone) None) (still 130) scenario_module
       = Some (scenario_module\<lparr>timer_loop := Fin 180\<rparr>, [], Some TypeError)"
    using w[where e = "stub_env (Inr (PNum 8)) (Inr PNone) None" and a = "PNum 8" and x = TypeError]
    by (simp add: stub_env_def sel log_last_measurement_def)
  have 3: "loop (stub_env (Inr (PTuple [PNum 55, PNum 8])) (Inl IOError) None) (still 130)
        scenario_module
       = Some (scenario_module\<lparr>timer_loop := Fin 180\<rparr>, [], Some IOError)"
    using w[where e = "stub_env (Inr (PTuple [PNum 55, PNum 8])) (Inl IOError) None"
        and x = IOError and a = "PTuple [PNum 55, PNum 8]"]
    by (simp add: stub_env_def sel log_last_measurement_def)
  have 4: "loop (stub_env (Inr (PTuple [PNum 55, PNum 8])) (Inr (PTuple [PNum 10])) None)
        (still 130) scenario_module
       = Some (scenario_module\<lparr>timer_loop := Fin 180\<rparr>, [], Some IndexError)"
    using w[where e = "stub_env (Inr (PTuple [PNum 55, PNum 8])) (Inr (PTuple [PNum 10])) None"
        and x = IndexError and a = "PTuple [PNum 55, PNum 8]" and b = "PTuple [PNum 10]"]
    by (simp add: stub_env_def sel log_last_measurement_def)
  have 5: "loop (stub_env (Inr (PTuple [PNum 55, PNum 8])) (Inr (PTuple [PNum 10, PNum 3])) None)
        (still 130) scenario_module
       = Some (scenario_module\<lparr>timer_loop := Fin 180\<rparr>, [], Some TypeError)"
    using w[where e = "stub_env (Inr (PTuple [PNum 55, PNum 8])) (Inr (PTuple [PNum 10, PNum 3])) None"
        and x = TypeError and a = "PTuple [PNum 55, PNum 8]" and b = "PTuple [PNum 10, PNum 3]"]
    by (simp add: stub_env_def sel log_last_measurement_def combine_def)
  have 6: "emit (stub_env (Inr PNone) (Inr PNone) (Some IOError)) scenario_module (PNum 5)
       = ([\<lparr>call_unique_id = ''difference'', call_unit = ''C'', call_value = PNum 5,
            call_measure = ''temperature'', call_channel = 0\<rparr>], Some IOError)"
    using w[where e = "stub_env (Inr PNone) (Inr PNone) (Some IOError)"
        and ch = "\<lparr>unit = ''C'', measurement = ''temperature''\<rparr>" and d = "PNum 5"]
    by (simp add: stub_env_def sel)
  from tk 1 2 3 4 5 6 show ?thesis by blast
qed

text \<open>
  Claim C4, counterexample: period 1, deadline 0, elapsed time 3.5, so that
  \<open>floor (T / P) = 3\<close>. One call at 3.5 fires once and leaves the deadline at 4; calls at
  0.5, 1.5, 2.5 and 3.5 fire four times and leave the deadline at 4 as well.
\<close>

theorem ticks_count_not_floor:
  "ticks (Fin 1) (map still [7 / 2]) (Fin 0) = Some (1, Fin 4)
   \<and> ticks (Fin 1) (map still [1 / 2, 3 / 2, 5 / 2, 7 / 2]) (Fin 0) = Some (4, Fin 4)
   \<and> \<lfloor>(7 / 2) / (1::real)\<rfloor> = 3 \<and> (4::real) \<noteq> 0 + 3 * 1"
  by (simp add: eval_simps)

text \<open>
  Claim C4 as amended: for a period that is not absorbed (at least \<open>2 ^ - 52\<close> times
  the magnitude \<open>M\<close> of the deadline and of every call time, all within the range of the
  doubles) and calls of which at least one is after the first deadline: every call
  returns; after all calls the deadline is the first deadline with the period added
  \<open>m\<close> times, one addition at a time in double arithmetic; it is at or above every call
  time, and with one addition fewer it would be below some call time; the number \<open>k\<close> of
  fires satisfies \<open>1 \<le> k \<le> m\<close>. (In exact arithmetic \<open>m\<close> would be
  \<open>ceiling (T / P)\<close>; with rounding it need not be, see \<open>ticks_rounding_example\<close>.)
\<close>

theorem ticks_phase:
  assumes "\<bar>t0\<bar> \<le> M" "\<forall>now\<in>set nows. \<bar>now\<bar> \<le> M" "M \<le> q * 2 ^ 52"
    "power_int 2 (- 1074) \<le> q" "M + 2 * q < 2 ^ 1024" "\<exists>now\<in>set nows. t0 < now"
  shows "\<exists>k m d. ticks (Fin q) (map still nows) (Fin t0) = Some (k, Fin d)
           \<and> add_periods (Fin q) m (Fin t0) = Fin d \<and> 1 \<le> k \<and> k \<le> m
           \<and> (\<forall>now\<in>set nows. now \<le> d)
           \<and> (\<exists>now\<in>set nows. float_lt (add_periods (Fin q) (m - 1) (Fin t0)) (Fin now))"
proof -
  have lo: "- M \<le> t0" using assms(1) by linarith
  from ticks_run[OF assms(2,3,4,5) lo] obtain k m d where km:
    "ticks (Fin q) (map still nows) (Fin t0) = Some (k, Fin d)"
    "add_periods (Fin q) m (Fin t0) = Fin d" "k \<le> m" "k = 0 \<longleftrightarrow> m = 0"
    "m = 0 \<longleftrightarrow> (\<forall>now\<in>set nows. now \<le> t0)" "\<forall>now\<in>set nows. now \<le> d"
    "0 < m \<longrightarrow> (\<exists>now\<in>set nows. float_lt (add_periods (Fin q) (m - 1) (Fin t0)) (Fin now))"
    by blast
  from assms(6) km(5) have "m \<noteq> 0" by force
  with km(4) have "1 \<le> k" by simp
  with km \<open>m \<noteq> 0\<close> show ?thesis by blast
qed

text \<open>
  The amended claim C4 at period 1, first deadline 0 and calls at 0.5 and 3.5.
\<close>

theorem ticks_phase_witness:
  "\<exists>k m d. ticks (Fin 1) (map still [1 / 2, 7 / 2]) (Fin 0) = Some (k, Fin d)
      \<and> add_periods (Fin 1) m (Fin 0) = Fin d \<and> 1 \<le> k \<and> k \<le> m
      \<and> (\<forall>now\<in>set [1 / 2, 7 / 2]. now \<le> d)
      \<and> (\<exists>now\<in>set [1 / 2, 7 / 2]. float_lt (add_periods (Fin 1) (m - 1) (Fin 0)) (Fin now))"
  using ticks_phase[of 0 "7 / 2" "[1 / 2, 7 / 2]" 1] by simp




text \<open>
  Claim C6 (absence propagates and suppresses emission): the block yields no difference
  when either measurement is \<open>None\<close>, whatever the other measurement and the flags;
  and a call of \<open>loop\<close> in which either read returns \<open>None\<close> returns, once its
  scheduling part has, without any call of \<open>write_influxdb_value\<close>.
\<close>

theorem absence_suppresses_emission:
  assumes "get_last_measurement e (select_measurement_a_device_id self)
             (select_measurement_a_measurement_id self) (measurement_max_age_a self) = Inr PNone
         \<or> get_last_measurement e (select_measurement_b_device_id self)
             (select_measurement_b_measurement_id self) (measurement_max_age_b self) = Inr PNone"
    and "tick (period self) clock (timer_loop self) = Some (fired, t')"
  shows "combine PNone x reverse absolute = Inr None
         \<and> combine x PNone reverse absolute = Inr None
         \<and> (\<exists>self' exc. loop e clock self = Some (self', [], exc))"
proof -
  have c: "combine PNone x reverse absolute = Inr None"
    "combine x PNone reverse absolute = Inr None"
    by (simp_all add: combine_def)
  have "\<exists>self' exc. loop e clock self = Some (self', [], exc)"
  proof (cases fired)
    case False
    with assms(2) show ?thesis by (simp add: loop_def)
  next
    case True
    with assms(2) have l: "loop e clock self
        = Some (self\<lparr>timer_loop := t'\<rparr>, loop_body e (self\<lparr>timer_loop := t'\<rparr>))"
      by (simp add: loop_of_tick)
    have "fst (loop_body e (self\<lparr>timer_loop := t'\<rparr>)) = []"
      using assms(1) by (intro loop_body_absent) simp
    with l show ?thesis by (cases "loop_body e (self\<lparr>timer_loop := t'\<rparr>)") simp
  qed
  with c show ?thesis by blast
qed

text \<open>
  Claim C6 at the second scenario of the specification: the staleness bound of stream B is
  5 s, its only sample is 50 s old at time 60, so the read of B finds nothing.
\<close>

theorem absence_suppresses_emission_witness:
  "get_last_measurement scenario_env ''B'' ''0'' 5 = Inr PNone
   \<and> tick (period (scenario_module\<lparr>measurement_max_age_b := 5\<rparr>)) (still 60)
        (timer_loop (scenario_module\<lparr>measurement_max_age_b := 5\<rparr>)) = Some (True, Fin 60)
   \<and> (\<exists>self' exc. loop scenario_env (still 60) (scenario_module\<lparr>measurement_max_age_b := 5\<rparr>)
                      = Some (self', [], exc))"
proof -
  have t: "tick (period (scenario_module\<lparr>measurement_max_age_b := 5\<rparr>)) (still 60)
        (timer_loop (scenario_module\<lparr>measurement_max_age_b := 5\<rparr>)) = Some (True, Fin 60)"
    by (simp add: scenario_module_def eval_simps)
  have b: "get_last_measurement scenario_env ''B'' ''0'' 5 = Inr PNone"
    by (simp add: scenario_env_def read_latest_def)
  have sel: "select_measurement_b_device_id (scenario_module\<lparr>measurement_max_age_b := 5\<rparr>) = ''B''"
    "select_measurement_b_measurement_id (scenario_module\<lparr>measurement_max_age_b := 5\<rparr>) = ''0''"
    "measurement_max_age_b (scenario_module\<lparr>measurement_max_age_b := 5\<rparr>) = 5"
    by (simp_all add: scenario_module_def)
  from absence_suppresses_emission[where self = "scenario_module\<lparr>measurement_max_age_b := 5\<rparr>"
      and e = scenario_env and clock = "still 60" and fired = True and t' = "Fin 60"
      and x = PNone and reverse = False and absolute = False] t b sel
  show ?thesis by simp
qed

text \<open>
  Claim C7 (validation of the period: only values \<open>> 0\<close> pass, so the period of a
  running unit is positive). The claim does not hold of the code: the test of line 46,
  \<open>value <= 0\<close>, is false for NaN, so NaN passes although it is not positive. A unit
  with that period fires once, which leaves its deadline at NaN, and never fires again.
\<close>

theorem nan_passes_validation:
  "constraints_pass_positive_value mod_controller NaN = (True, [], mod_controller)
   \<and> \<not> float_lt (Fin 0) NaN
   \<and> tick NaN (still 60) (Fin 0) = Some (True, NaN)
   \<and> tick NaN clock NaN = Some (False, NaN)"
  by (simp add: constraints_pass_positive_value_def eval_simps)

text \<open>
  Claim C8 (with \<open>absolute\<close> set the result does not depend on \<open>reverse\<close> and is
  \<open>|a - b|\<close>). The claim does not hold of the code, by the defect of claim C1: for the
  samples with values 2.0 and 9.0 the block raises \<open>TypeError\<close> under both settings of
  \<open>reverse\<close>, where the claim expects 7.0.
\<close>

theorem combine_absolute_of_samples_raises:
  "combine (PTuple [PNum 60, PNum 2]) (PTuple [PNum 60, PNum 9]) True True = Inl TypeError
   \<and> combine (PTuple [PNum 60, PNum 2]) (PTuple [PNum 60, PNum 9]) False True = Inl TypeError"
  by (simp add: combine_def)

text \<open>
  Claim C9, counterexample: the period \<open>2 ^ - 27\<close> s is positive and passes the
  validator, and the deadline 1700000000 is below the time 1700000001; the sum of deadline
  and period rounds to the deadline, so the loop never returns. The same happens with
  period 1 at the deadline \<open>2 ^ 53\<close>.
\<close>

theorem absorbed_period_never_returns:
  "float_lt (Fin 0) (Fin (1 / 2 ^ 27))
   \<and> fst (constraints_pass_positive_value () (Fin (1 / 2 ^ 27)))
   \<and> float_add (Fin 1700000000) (Fin (1 / 2 ^ 27)) = Fin 1700000000
   \<and> advance_timer (Fin (1 / 2 ^ 27)) (still 1700000001) 0 (Fin 1700000000) = None
   \<and> float_add (Fin (2 ^ 53)) (Fin 1) = Fin (2 ^ 53)
   \<and> advance_timer (Fin 1) (still (2 ^ 53 + 2)) 0 (Fin (2 ^ 53)) = None"
proof -
  have a: "float_add (Fin 1700000000) (Fin (1 / 2 ^ 27)) = Fin 1700000000"
    by (simp add: eval_simps)
  have "\<forall>j. float_lt (Fin 1700000000) (Fin (still 1700000001 j))"
    by (simp add: still_def)
  with a have 1: "advance_timer (Fin (1 / 2 ^ 27)) (still 1700000001) 0 (Fin 1700000000) = None"
    by (rule advance_timer_absorbed)
  have b: "float_add (Fin (2 ^ 53)) (Fin 1) = Fin (2 ^ 53)"
    by (simp add: eval_simps)
  have "\<forall>j. float_lt (Fin (2 ^ 53)) (Fin (still (2 ^ 53 + 2) j))"
    by (simp add: still_def)
  with b have 2: "advance_timer (Fin 1) (still (2 ^ 53 + 2)) 0 (Fin (2 ^ 53)) = None"
    by (rule advance_timer_absorbed)
  from a 1 b 2 show ?thesis by (simp add: constraints_pass_positive_value_def)
qed

text \<open>
  Claim C9 as amended: for a period that is not absorbed (at least \<open>2 ^ - 52\<close> times
  the magnitude \<open>M\<close> of the deadline and of the bound \<open>N\<close> of the clock, all within the
  range of the doubles) the catch-up loop returns after a number \<open>m\<close> of additions of
  the period, with the deadline no longer below the clock, every earlier value having been
  below it.
\<close>

theorem advance_timer_terminates:
  assumes "\<forall>i. clock i \<le> N" "\<bar>a\<bar> \<le> M" "\<bar>N\<bar> \<le> M" "M \<le> q * 2 ^ 52"
    "power_int 2 (- 1074) \<le> q" "M < 2 ^ 1024"
  shows "\<exists>m. advance_timer (Fin q) clock i (Fin a) = Some (add_periods (Fin q) m (Fin a))
           \<and> float_le (Fin (clock (i + m))) (add_periods (Fin q) m (Fin a))
           \<and> (\<forall>k<m. float_lt (add_periods (Fin q) k (Fin a)) (Fin (clock (i + k))))"
proof -
  have "N \<le> M" "- M \<le> a" using assms(2,3) by linarith+
  from advance_timer_returns[OF assms(1) this(1) assms(4,5,6) this(2), of i]
  show ?thesis by blast
qed

text \<open>
  The amended claim C9 at period 60, deadline 0 and time 130.
\<close>

theorem advance_timer_terminates_witness:
  "\<exists>m. advance_timer (Fin 60) (still 130) 0 (Fin 0) = Some (add_periods (Fin 60) m (Fin 0))
      \<and> float_le (Fin 130) (add_periods (Fin 60) m (Fin 0))
      \<and> (\<forall>k<m. float_lt (add_periods (Fin 60) k (Fin 0)) (Fin 130))"
  using advance_timer_terminates[where clock = "still 130" and N = 130 and a = 0 and M = 130
      and q = 60 and i = 0]
  by (simp add: still_def)

text \<open>
  Claim C10, counterexample: a call at 60 with deadline 0 and period 60 fires and leaves
  the deadline at 60: at the current time, not past it.
\<close>

theorem loop_deadline_not_past_now:
  "loop absent_env (still 60) scenario_module
     = Some (scenario_module\<lparr>timer_loop := Fin 60\<rparr>, [], None)
   \<and> timer_loop (scenario_module\<lparr>timer_loop := Fin 60\<rparr>) = Fin 60 \<and> \<not> (60::real) < 60"
  by (simp add: absent_env_def scenario_module_def loop_def eval_simps
        loop_body_def log_last_measurement_def combine_def)

text \<open>
  Claim C10 as amended: a call that fires (the clock standing still, the period not
  absorbed) adds the period \<open>m \<ge> 1\<close> times, to a deadline at or above \<open>now\<close> from a
  value below \<open>now\<close>, before either measurement is read: the deadline it leaves is the
  same whatever the reads and the write return or raise, and no call whose first reading
  of the clock is at or below that deadline fires (reads or writes) again.
\<close>

theorem loop_deadline_before_reads:
  assumes "timer_loop self = Fin a" "period self = Fin q" "a < now" "\<bar>a\<bar> \<le> M" "\<bar>now\<bar> \<le> M"
    "M \<le> q * 2 ^ 52" "power_int 2 (- 1074) \<le> q" "M < 2 ^ 1024"
  shows "\<exists>m>0. float_le (Fin now) (add_periods (Fin q) m (Fin a))
           \<and> float_lt (add_periods (Fin q) (m - 1) (Fin a)) (Fin now)
           \<and> (\<forall>e. \<exists>calls exc. loop e (still now) self
                 = Some (self\<lparr>timer_loop := add_periods (Fin q) m (Fin a)\<rparr>, calls, exc))
           \<and> (\<forall>e clock. float_le (Fin (clock 0)) (add_periods (Fin q) m (Fin a)) \<longrightarrow>
                 loop e clock (self\<lparr>timer_loop := add_periods (Fin q) m (Fin a)\<rparr>)
                 = Some (self\<lparr>timer_loop := add_periods (Fin q) m (Fin a)\<rparr>, [], None))"
proof -
  from tick_fire[OF assms(3,4,5,6,7,8)] obtain m where m: "0 < m"
    "tick (Fin q) (still now) (Fin a) = Some (True, add_periods (Fin q) m (Fin a))"
    "float_le (Fin now) (add_periods (Fin q) m (Fin a))"
    "\<forall>k<m. float_lt (add_periods (Fin q) k (Fin a)) (Fin now)" by blast
  let ?d = "add_periods (Fin q) m (Fin a)"
  from m(1,4) have prev: "float_lt (add_periods (Fin q) (m - 1) (Fin a)) (Fin now)" by simp
  have tk: "tick (period self) (still now) (timer_loop self) = Some (True, ?d)"
    using m(2) assms(1,2) by simp
  have a: "\<forall>e. \<exists>calls exc. loop e (still now) self = Some (self\<lparr>timer_loop := ?d\<rparr>, calls, exc)"
  proof
    fix e
    obtain calls exc where "loop_body e (self\<lparr>timer_loop := ?d\<rparr>) = (calls, exc)"
      by (cases "loop_body e (self\<lparr>timer_loop := ?d\<rparr>)")
    with loop_of_tick[OF tk, of e]
    show "\<exists>calls exc. loop e (still now) self = Some (self\<lparr>timer_loop := ?d\<rparr>, calls, exc)"
      by simp
  qed
  have b: "\<forall>e clock. float_le (Fin (clock 0)) ?d \<longrightarrow>
             loop e clock (self\<lparr>timer_loop := ?d\<rparr>) = Some (self\<lparr>timer_loop := ?d\<rparr>, [], None)"
    by (simp add: loop_no_fire float_le_not_lt)
  from m(1,3) prev a b show ?thesis by blast
qed

text \<open>
  The amended claim C10 at the unit of the scenario and a call at time 130.
\<close>

theorem loop_deadline_before_reads_witness:
  "timer_loop scenario_module = Fin 0 \<and> period scenario_module = Fin 60
   \<and> (\<exists>m>0. float_le (Fin 130) (add_periods (Fin 60) m (Fin 0))
        \<and> float_lt (add_periods (Fin 60) (m - 1) (Fin 0)) (Fin 130)
        \<and> (\<forall>e. \<exists>calls exc. loop e (still 130) scenario_module
                 = Some (scenario_module\<lparr>timer_loop := add_periods (Fin 60) m (Fin 0)\<rparr>, calls, exc))
        \<and> (\<forall>e clock. float_le (Fin (clock 0)) (add_periods (Fin 60) m (Fin 0)) \<longrightarrow>
                 loop e clock (scenario_module\<lparr>timer_loop := add_periods (Fin 60) m (Fin 0)\<rparr>)
                 = Some (scenario_module\<lparr>timer_loop := add_periods (Fin 60) m (Fin 0)\<rparr>, [], None)))"
proof -
  have h: "timer_loop scenario_module = Fin 0" "period scenario_module = Fin 60"
    by (simp_all add: scenario_module_def)
  have n: "(0::real) < 130" "\<bar>0::real\<bar> \<le> 130" "\<bar>130::real\<bar> \<le> 130" "(130::real) \<le> 60 * 2 ^ 52"
    "power_int 2 (- 1074) \<le> (60::real)" "(130::real) < 2 ^ 1024"
    by simp_all
  from loop_deadline_before_reads[OF h n] h show ?thesis by blast
qed

end
